theory Spec2Isabelle
  imports Main
begin

section \<open>Values exchanged with the Athena service\<close>

text \<open>
  Modelled from the spec: the client in \<^verbatim>\<open>src/athena-query-client.ts\<close> talks to the
  service through the AWS SDK, whose type declarations are not part of the repository.
  The shapes below are the spec's data model, under the names the code reads them by: a
  raw row is an ordered sequence (\<^verbatim>\<open>Data\<close>) of cells, a cell is an optional string
  (\<^verbatim>\<open>VarCharValue\<close>), and the status of an execution is one of five states.
\<close>

datatype Datum = Datum (VarCharValue: "string option")

datatype Row = Row (Data: "Datum list")

datatype QueryExecutionState = QUEUED | RUNNING | SUCCEEDED | FAILED | CANCELLED

text \<open>
  What a rejected promise or a \<^verbatim>\<open>throw\<close> carries. The code itself only ever throws
  the generic \<^verbatim>\<open>Error\<close> with a message; \<open>TypeError\<close> is what the runtime throws when a
  property of \<^verbatim>\<open>undefined\<close> is read; \<open>ServiceError\<close> stands for whatever exception
  \<^verbatim>\<open>client.send\<close> rejects with, identified by its name.
\<close>

datatype js_error = TypeError | Error (message: string) | ServiceError string

fun error_name :: "js_error \<Rightarrow> string" where
  "error_name TypeError = ''TypeError''"
| "error_name (Error m) = ''Error''"
| "error_name (ServiceError n) = n"

definition raises_named :: "string \<Rightarrow> js_error + 'a \<Rightarrow> bool" where
  "raises_named n r = (case r of Inl e \<Rightarrow> error_name e = n | Inr v \<Rightarrow> False)"

section \<open>The row mapper: \<^verbatim>\<open>mapData\<close>\<close>

text \<open>
  A mapped object is a plain JavaScript object created by \<^verbatim>\<open>{}\<close> whose properties are
  all strings: a finite map from property names to strings.
\<close>

type_synonym js_object = "string \<rightharpoonup> string"

text \<open>
  JavaScript truthiness of an optional string, as tested by \<^verbatim>\<open>if (s)\<close>, \<^verbatim>\<open>s && ...\<close>
  and \<^verbatim>\<open>while (s)\<close>: \<^verbatim>\<open>undefined\<close> and the empty string are falsy.
\<close>

fun truthy :: "string option \<Rightarrow> bool" where
  "truthy None = False"
| "truthy (Some s) = (s \<noteq> [])"

text \<open>
  The conversion of an optional string to a string, as a property name and a template
  literal do it: \<^verbatim>\<open>undefined\<close> becomes the string \<^verbatim>\<open>"undefined"\<close>.
\<close>

fun ToString :: "string option \<Rightarrow> string" where
  "ToString None = ''undefined''"
| "ToString (Some c) = c"

text \<open>
  \<^verbatim>\<open>columns[i]\<close> used as a property name. Reading an array past its end gives
  \<^verbatim>\<open>undefined\<close>, as does a header cell without a value.
\<close>

definition js_index :: "string option list \<Rightarrow> nat \<Rightarrow> string option" where
  "js_index xs i = (if i < length xs then xs ! i else None)"

definition column_key :: "string option list \<Rightarrow> nat \<Rightarrow> string" where
  "column_key columns i = ToString (js_index columns i)"

text \<open>
  The assignment \<^verbatim>\<open>mappedObject[key] = v\<close> on an object created by \<^verbatim>\<open>{}\<close>. Every
  name creates or overwrites an own property, except \<^verbatim>\<open>__proto__\<close>: that name is an
  accessor inherited from \<^verbatim>\<open>Object.prototype\<close>, whose setter ignores a string, so the
  object is left as it was.
\<close>

definition set_property :: "js_object \<Rightarrow> string \<Rightarrow> string \<Rightarrow> js_object" where
  "set_property obj key v = (if key = ''__proto__'' then obj else obj(key \<mapsto> v))"

text \<open>
  The inner loop \<^verbatim>\<open>item.Data.forEach((value, i) => ...)\<close>, lines 146 to 152: \<open>i\<close> is the
  index of the next cell.
\<close>

fun forEach_Data :: "string option list \<Rightarrow> nat \<Rightarrow> Datum list \<Rightarrow> js_object \<Rightarrow> js_object" where
  "forEach_Data columns i [] mappedObject = mappedObject"
| "forEach_Data columns i (value # rest) mappedObject =
     forEach_Data columns (Suc i) rest
       (if truthy (VarCharValue value)
        then set_property mappedObject (column_key columns i)
               (case VarCharValue value of Some s \<Rightarrow> s | None \<Rightarrow> [])
        else set_property mappedObject (column_key columns i) [])"

text \<open>
  The outer loop \<^verbatim>\<open>data.Rows.forEach((item, i) => ...)\<close>, lines 140 to 155: the row at
  index 0 is skipped, every other row pushes one object.
\<close>

fun forEach_Rows :: "string option list \<Rightarrow> nat \<Rightarrow> Row list \<Rightarrow> js_object list \<Rightarrow> js_object list" where
  "forEach_Rows columns i [] mappedData = mappedData"
| "forEach_Rows columns i (item # rest) mappedData =
     (if i = 0 then forEach_Rows columns (Suc i) rest mappedData
      else forEach_Rows columns (Suc i) rest
             (mappedData @ [forEach_Data columns 0 (Data item) Map.empty]))"

text \<open>
  \<^verbatim>\<open>mapData\<close>, lines 133 to 158; the argument is \<^verbatim>\<open>data.Rows\<close>. With no rows,
  \<^verbatim>\<open>data.Rows[0]\<close> is \<^verbatim>\<open>undefined\<close> and reading its \<^verbatim>\<open>Data\<close> throws a \<open>TypeError\<close>.
\<close>

definition mapData :: "Row list \<Rightarrow> js_error + js_object list" where
  "mapData rows =
     (case rows of
        [] \<Rightarrow> Inl TypeError
      | header # others \<Rightarrow> Inr (forEach_Rows (map VarCharValue (Data header)) 0 rows []))"

section \<open>The client and its configuration\<close>

record ResultReuseByAgeConfiguration =
  Enabled :: bool
  MaxAgeInMinutes :: "int option"

record ResultReuseConfiguration =
  ResultReuseByAgeConfiguration :: ResultReuseByAgeConfiguration

text \<open>
  \<^verbatim>\<open>AthenaQueryClientConfig\<close>, lines 17 to 23. \<^verbatim>\<open>ClientConfig\<close> is only handed to the
  SDK's own constructor and is left out.
\<close>

record AthenaQueryClientConfig =
  Database :: string
  Catalog :: string
  WorkGroup :: "string option"
  ResultReuseConfiguration :: "ResultReuseConfiguration option"

text \<open>The fields of the class, lines 26 to 35; the SDK client is the service below.\<close>

record AthenaQueryClient =
  database :: string
  catalog :: string
  workGroup :: string
  resultReuseConfiguration :: ResultReuseConfiguration

text \<open>
  The constructor, lines 37 to 49: the field initialisers give the defaults, and each
  \<^verbatim>\<open>if (config.X)\<close> overrides one when the configured value is truthy. An object is
  always truthy; a string is truthy when it is not empty.
\<close>

definition constructor :: "AthenaQueryClientConfig \<Rightarrow> AthenaQueryClient" where
  "constructor config =
     \<lparr> database = Database config,
       catalog = Catalog config,
       workGroup =
         (if truthy (WorkGroup config)
          then (case WorkGroup config of Some wg \<Rightarrow> wg | None \<Rightarrow> ''primary'')
          else ''primary''),
       resultReuseConfiguration =
         (case ResultReuseConfiguration config of
            Some reuse \<Rightarrow> reuse
          | None \<Rightarrow> \<lparr> ResultReuseByAgeConfiguration = \<lparr> Enabled = True, MaxAgeInMinutes = Some 60 \<rparr> \<rparr>) \<rparr>"

section \<open>The service, as a script of responses\<close>

text \<open>
  The input of \<^verbatim>\<open>StartQueryExecutionCommand\<close>, lines 57 to 65; \<open>ContextDatabase\<close> and
  \<open>ContextCatalog\<close> are \<^verbatim>\<open>QueryExecutionContext.Database\<close> and
  \<^verbatim>\<open>QueryExecutionContext.Catalog\<close>.
\<close>

record StartQueryExecutionInput =
  QueryString :: string
  ContextDatabase :: string
  ContextCatalog :: string
  InputWorkGroup :: string
  InputResultReuseConfiguration :: ResultReuseConfiguration

text \<open>
  The response to \<^verbatim>\<open>StartQueryExecutionCommand\<close>; \<open>StartedQueryExecutionId\<close> is its
  \<^verbatim>\<open>QueryExecutionId\<close>, which the SDK declares optional.
\<close>

record StartQueryExecutionOutput =
  StartedQueryExecutionId :: "string option"

text \<open>
  What the code reads of a \<^verbatim>\<open>GetQueryExecutionCommand\<close> response:
  \<^verbatim>\<open>QueryExecution.Status.State\<close> and \<^verbatim>\<open>QueryExecution.Status.StateChangeReason\<close>.
\<close>

record GetQueryExecutionOutput =
  State :: QueryExecutionState
  StateChangeReason :: "string option"

text \<open>
  What the code reads of a \<^verbatim>\<open>GetQueryResultsCommand\<close> response: \<open>Rows\<close> is
  \<^verbatim>\<open>ResultSet?.Rows\<close>, absent when the result set or its rows are.
\<close>

record GetQueryResultsOutput =
  Rows :: "Row list option"
  NextToken :: "string option"

text \<open>
  Everything the client does to the outside: the three commands it sends, with their
  inputs, and the timer it sets, with its delay in milliseconds.
\<close>

datatype event =
    StartQueryExecutionCommand StartQueryExecutionInput
  | GetQueryExecutionCommand "string option"
  | GetQueryResultsCommand "string option" "string option"
  | setTimeout int

text \<open>
  The service is a script: for each command, the responses it will give, in order, each
  either a rejection or an output; \<open>log\<close> collects the events so far. The code's
  behaviour depends on the service through these responses only.
\<close>

record service =
  starts :: "(js_error + StartQueryExecutionOutput) list"
  executions :: "(js_error + GetQueryExecutionOutput) list"
  results :: "(js_error + GetQueryResultsOutput) list"
  log :: "event list"

text \<open>
  An awaited call gives a rejection or a value, and the service afterwards. \<open>None\<close>
  means that the script ended before the call did: the call is still waiting.
\<close>

type_synonym 'a promise = "((js_error + 'a) \<times> service) option"

text \<open>\<^verbatim>\<open>this.client.send(command)\<close>, for each of the three commands.\<close>

definition send_StartQueryExecution ::
  "StartQueryExecutionInput \<Rightarrow> service \<Rightarrow> StartQueryExecutionOutput promise" where
  "send_StartQueryExecution input s =
     (case starts s of
        [] \<Rightarrow> None
      | r # rest \<Rightarrow>
          Some (r, s\<lparr>starts := rest, log := log s @ [StartQueryExecutionCommand input]\<rparr>))"

definition send_GetQueryExecution ::
  "string option \<Rightarrow> service \<Rightarrow> GetQueryExecutionOutput promise" where
  "send_GetQueryExecution QueryExecutionId s =
     (case executions s of
        [] \<Rightarrow> None
      | r # rest \<Rightarrow>
          Some (r, s\<lparr>executions := rest, log := log s @ [GetQueryExecutionCommand QueryExecutionId]\<rparr>))"

definition send_GetQueryResults ::
  "string option \<Rightarrow> string option \<Rightarrow> service \<Rightarrow> GetQueryResultsOutput promise" where
  "send_GetQueryResults QueryExecutionId token s =
     (case results s of
        [] \<Rightarrow> None
      | r # rest \<Rightarrow>
          Some (r, s\<lparr>results := rest,
                     log := log s @ [GetQueryResultsCommand QueryExecutionId token]\<rparr>))"

text \<open>\<^verbatim>\<open>await this.timeout(msTime)\<close>, lines 165 to 167.\<close>

definition timeout :: "int \<Rightarrow> service \<Rightarrow> service" where
  "timeout msTime s = s\<lparr>log := log s @ [setTimeout msTime]\<rparr>"

section \<open>The paginator: \<^verbatim>\<open>getQueryResults\<close>\<close>

text \<open>\<^verbatim>\<open>ResultSet?.Rows || []\<close>, line 121.\<close>

definition page_rows :: "GetQueryResultsOutput \<Rightarrow> Row list" where
  "page_rows response = (case Rows response of Some rows \<Rightarrow> rows | None \<Rightarrow> [])"

text \<open>
  The \<^verbatim>\<open>do ... while (nextToken)\<close> loop, lines 114 to 123, entered with the current
  \<open>nextToken\<close> and \<open>allRows\<close>. The command carries \<open>NextToken\<close> only when
  \<open>nextToken\<close> is truthy (line 117), and the loop goes on only while the token just
  received is truthy.
\<close>

function getQueryResults_loop ::
  "string option \<Rightarrow> string option \<Rightarrow> Row list \<Rightarrow> service \<Rightarrow> (Row list) promise" where
  "getQueryResults_loop QueryExecutionId nextToken allRows s =
     (case send_GetQueryResults QueryExecutionId (if truthy nextToken then nextToken else None) s of
        None \<Rightarrow> None
      | Some (Inl e, s') \<Rightarrow> Some (Inl e, s')
      | Some (Inr response, s') \<Rightarrow>
          (if truthy (NextToken response)
           then getQueryResults_loop QueryExecutionId (NextToken response)
                  (allRows @ page_rows response) s'
           else Some (Inr (allRows @ page_rows response), s')))"
  by pat_completeness auto
termination
  by (relation "measure (\<lambda>(QueryExecutionId, nextToken, allRows, s). length (results s))")
     (auto simp: send_GetQueryResults_def split: list.splits)

declare getQueryResults_loop.simps [simp del]

text \<open>
  \<^verbatim>\<open>getQueryResults\<close>, lines 110 to 126: the loop from no token and no rows, then
  \<^verbatim>\<open>mapData\<close>; an exception of \<^verbatim>\<open>mapData\<close> rejects the promise.
\<close>

definition getQueryResults :: "string option \<Rightarrow> service \<Rightarrow> (js_object list) promise" where
  "getQueryResults QueryExecutionId s =
     (case getQueryResults_loop QueryExecutionId None [] s of
        None \<Rightarrow> None
      | Some (Inl e, s') \<Rightarrow> Some (Inl e, s')
      | Some (Inr allRows, s') \<Rightarrow> Some (mapData allRows, s'))"

section \<open>The poller: \<^verbatim>\<open>checkQueryExequtionStateAndGetData\<close>\<close>

text \<open>
  Lines 83 to 103. The five states are all the states there are, so the chain of
  comparisons always takes one of its branches.
\<close>

function checkQueryExequtionStateAndGetData ::
  "string option \<Rightarrow> service \<Rightarrow> (js_object list) promise" where
  "checkQueryExequtionStateAndGetData QueryExecutionId s =
     (case send_GetQueryExecution QueryExecutionId s of
        None \<Rightarrow> None
      | Some (Inl e, s') \<Rightarrow> Some (Inl e, s')
      | Some (Inr response, s') \<Rightarrow>
          (if State response = QUEUED \<or> State response = RUNNING
           then checkQueryExequtionStateAndGetData QueryExecutionId (timeout 1000 s')
           else if State response = SUCCEEDED
           then getQueryResults QueryExecutionId s'
           else if State response = FAILED
           then Some (Inl (Error (''Query failed: '' @ ToString (StateChangeReason response))), s')
           else Some (Inl (Error ''Query was cancelled''), s')))"
  by pat_completeness auto
termination
  by (relation "measure (\<lambda>(QueryExecutionId, s). length (executions s))")
     (auto simp: send_GetQueryExecution_def timeout_def split: list.splits)

declare checkQueryExequtionStateAndGetData.simps [simp del]

section \<open>The client's entry point: \<^verbatim>\<open>query\<close>\<close>

text \<open>The object built at lines 57 to 65.\<close>

definition queryExecutionInput :: "AthenaQueryClient \<Rightarrow> string \<Rightarrow> StartQueryExecutionInput" where
  "queryExecutionInput this sqlQuery =
     \<lparr> QueryString = sqlQuery,
       ContextDatabase = database this,
       ContextCatalog = catalog this,
       InputWorkGroup = workGroup this,
       InputResultReuseConfiguration = resultReuseConfiguration this \<rparr>"

text \<open>\<^verbatim>\<open>query\<close>, lines 56 to 74.\<close>

definition query :: "AthenaQueryClient \<Rightarrow> string \<Rightarrow> service \<Rightarrow> (js_object list) promise" where
  "query this sqlQuery s =
     (case send_StartQueryExecution (queryExecutionInput this sqlQuery) s of
        None \<Rightarrow> None
      | Some (Inl e, s') \<Rightarrow> Some (Inl e, s')
      | Some (Inr started, s') \<Rightarrow>
          checkQueryExequtionStateAndGetData (StartedQueryExecutionId started) s')"

section \<open>Vocabulary of the statements\<close>

text \<open>
  The string a cell stands for: its value when it has one, the empty string when it has
  none.
\<close>

definition cell_text :: "Datum \<Rightarrow> string" where
  "cell_text d = (case VarCharValue d of Some s \<Rightarrow> s | None \<Rightarrow> [])"

text \<open>
  What is left of a promise when only the value matters, and when only the events do.
\<close>

definition outcome :: "'a promise \<Rightarrow> (js_error + 'a) option" where
  "outcome p = map_option fst p"

definition events :: "'a promise \<Rightarrow> event list" where
  "events p = (case p of None \<Rightarrow> [] | Some (r, s) \<Rightarrow> log s)"

text \<open>
  The events of polling through \<open>n\<close> non-terminal statuses to a terminal one: \<open>n\<close>
  times a status query and a timer of 1000 ms, then the last status query.
\<close>

definition poll_events :: "string option \<Rightarrow> nat \<Rightarrow> event list" where
  "poll_events QueryExecutionId n =
     concat (replicate n [GetQueryExecutionCommand QueryExecutionId, setTimeout 1000])
       @ [GetQueryExecutionCommand QueryExecutionId]"

text \<open>The parts of a log: the submissions, the status queries, the timers, the fetches.\<close>

fun submissions :: "event list \<Rightarrow> StartQueryExecutionInput list" where
  "submissions [] = []"
| "submissions (StartQueryExecutionCommand input # es) = input # submissions es"
| "submissions (e # es) = submissions es"

fun status_queries :: "event list \<Rightarrow> string option list" where
  "status_queries [] = []"
| "status_queries (GetQueryExecutionCommand QueryExecutionId # es) =
     QueryExecutionId # status_queries es"
| "status_queries (e # es) = status_queries es"

fun timers :: "event list \<Rightarrow> int list" where
  "timers [] = []"
| "timers (setTimeout msTime # es) = msTime # timers es"
| "timers (e # es) = timers es"

fun fetches :: "event list \<Rightarrow> (string option \<times> string option) list" where
  "fetches [] = []"
| "fetches (GetQueryResultsCommand QueryExecutionId token # es) =
     (QueryExecutionId, token) # fetches es"
| "fetches (e # es) = fetches es"

section \<open>Example inputs\<close>

definition ex_header_only :: "Row list" where
  "ex_header_only = [Row [Datum (Some ''a''), Datum (Some ''b'')]]"

definition ex_two_rows :: "Row list" where
  "ex_two_rows =
     [Row [Datum (Some ''a''), Datum (Some ''b'')],
      Row [Datum (Some ''1''), Datum (Some ''2'')],
      Row [Datum (Some ''3''), Datum None]]"

definition ex_short_row :: "Row list" where
  "ex_short_row =
     [Row [Datum (Some ''a''), Datum (Some ''b'')],
      Row [Datum (Some ''1'')]]"

definition ex_long_row :: "Row list" where
  "ex_long_row =
     [Row [Datum (Some ''a'')],
      Row [Datum (Some ''1''), Datum (Some ''2''), Datum (Some ''3'')]]"

definition ex_client :: AthenaQueryClient where
  "ex_client =
     constructor \<lparr> Database = ''sales'', Catalog = ''AwsDataCatalog'',
                   WorkGroup = None, ResultReuseConfiguration = None \<rparr>"

definition ex_failed :: service where
  "ex_failed =
     \<lparr> starts = [Inr \<lparr> StartedQueryExecutionId = Some ''q1'' \<rparr>],
       executions = [Inr \<lparr> State = FAILED, StateChangeReason = Some ''syntax error'' \<rparr>],
       results = [],
       log = [] \<rparr>"

definition ex_cancelled :: service where
  "ex_cancelled =
     \<lparr> starts = [Inr \<lparr> StartedQueryExecutionId = Some ''q1'' \<rparr>],
       executions = [Inr \<lparr> State = RUNNING, StateChangeReason = None \<rparr>,
                     Inr \<lparr> State = CANCELLED, StateChangeReason = None \<rparr>],
       results = [],
       log = [] \<rparr>"

definition ex_page1 :: GetQueryResultsOutput where
  "ex_page1 =
     \<lparr> Rows = Some [Row [Datum (Some ''a''), Datum (Some ''b'')],
                     Row [Datum (Some ''1''), Datum (Some ''2'')]],
       NextToken = Some ''t1'' \<rparr>"

definition ex_page2 :: GetQueryResultsOutput where
  "ex_page2 = \<lparr> Rows = Some [Row [Datum (Some ''3''), Datum None]], NextToken = None \<rparr>"

definition ex_succeeding :: service where
  "ex_succeeding =
     \<lparr> starts = [Inr \<lparr> StartedQueryExecutionId = Some ''q1'' \<rparr>],
       executions = [Inr \<lparr> State = QUEUED, StateChangeReason = None \<rparr>,
                     Inr \<lparr> State = RUNNING, StateChangeReason = None \<rparr>,
                     Inr \<lparr> State = SUCCEEDED, StateChangeReason = None \<rparr>],
       results = [Inr ex_page1, Inr ex_page2],
       log = [] \<rparr>"

definition ex_records :: "js_object list" where
  "ex_records = [[''a'' \<mapsto> ''1'', ''b'' \<mapsto> ''2''], [''a'' \<mapsto> ''3'', ''b'' \<mapsto> []]]"

definition ex_done :: service where
  "ex_done =
     \<lparr> starts = [], executions = [], results = [],
       log = [StartQueryExecutionCommand (queryExecutionInput ex_client ''SELECT 1''),
              GetQueryExecutionCommand (Some ''q1''), setTimeout 1000,
              GetQueryExecutionCommand (Some ''q1''), setTimeout 1000,
              GetQueryExecutionCommand (Some ''q1''),
              GetQueryResultsCommand (Some ''q1'') None,
              GetQueryResultsCommand (Some ''q1'') (Some ''t1'')] \<rparr>"

text \<open>Two pages, the first of which carries the empty string as its continuation token.\<close>

definition ex_empty_token :: service where
  "ex_empty_token =
     \<lparr> starts = [],
       executions = [],
       results = [Inr \<lparr> Rows = Some [Row [Datum (Some ''a'')]], NextToken = Some [] \<rparr>,
                  Inr \<lparr> Rows = Some [Row [Datum (Some ''1'')]], NextToken = None \<rparr>],
       log = [] \<rparr>"

text \<open>
  A succeeded execution with two pages of results, the first of which carries the empty
  string as its continuation token.
\<close>

definition ex_succeeded_empty_token :: service where
  "ex_succeeded_empty_token =
     \<lparr> starts = [Inr \<lparr> StartedQueryExecutionId = Some ''q1'' \<rparr>],
       executions = [Inr \<lparr> State = SUCCEEDED, StateChangeReason = None \<rparr>],
       results = [Inr \<lparr> Rows = Some [Row [Datum (Some ''a'')], Row [Datum (Some ''1'')]],
                        NextToken = Some [] \<rparr>,
                  Inr \<lparr> Rows = Some [Row [Datum (Some ''2'')]], NextToken = None \<rparr>],
       log = [] \<rparr>"

text \<open>A header whose first column is named \<^verbatim>\<open>__proto__\<close>, and one data row.\<close>

definition ex_proto_header :: "Row list" where
  "ex_proto_header =
     [Row [Datum (Some ''__proto__''), Datum (Some ''b'')],
      Row [Datum (Some ''1''), Datum (Some ''2'')]]"

section \<open>Properties of the row mapper\<close>

lemma forEach_Data_step:
  "forEach_Data columns i (value # rest) obj =
     forEach_Data columns (Suc i) rest (set_property obj (column_key columns i) (cell_text value))"
  by (cases "VarCharValue value") (auto simp: cell_text_def)

lemma forEach_Data_append:
  "forEach_Data columns i (xs @ ys) obj =
     forEach_Data columns (i + length xs) ys (forEach_Data columns i xs obj)"
  by (induction xs arbitrary: i obj) (simp_all del: forEach_Data.simps(2) add: forEach_Data_step)

lemma forEach_Data_other:
  "(\<And>j. j < length cells \<Longrightarrow> column_key columns (i + j) \<noteq> k) \<Longrightarrow>
     forEach_Data columns i cells obj k = obj k"
proof (induction cells arbitrary: i obj)
  case Nil
  then show ?case by simp
next
  case (Cons c cells)
  have "forEach_Data columns (Suc i) cells (set_property obj (column_key columns i) (cell_text c)) k
        = set_property obj (column_key columns i) (cell_text c) k"
    using Cons.prems by (intro Cons.IH) (metis add_Suc_shift length_Cons Suc_less_eq)
  moreover have "column_key columns i \<noteq> k"
    using Cons.prems [of 0] by simp
  ultimately show ?case
    by (simp del: forEach_Data.simps(2) add: forEach_Data_step set_property_def)
qed

lemma forEach_Data_last_write:
  assumes "j < length cells" and "column_key columns (i + j) = k" and "k \<noteq> ''__proto__''"
    and "\<And>j'. j < j' \<Longrightarrow> j' < length cells \<Longrightarrow> column_key columns (i + j') \<noteq> k"
  shows "forEach_Data columns i cells obj k = Some (cell_text (cells ! j))"
proof -
  have split: "cells = take j cells @ (cells ! j) # drop (Suc j) cells"
    using assms(1) by (simp add: id_take_nth_drop)
  have len: "length (take j cells) = j"
    using assms(1) by simp
  have "forEach_Data columns i cells obj k =
        forEach_Data columns (i + j) ((cells ! j) # drop (Suc j) cells) (forEach_Data columns i (take j cells) obj) k"
    by (subst split) (simp only: forEach_Data_append len)
  also have "\<dots> = forEach_Data columns (Suc (i + j)) (drop (Suc j) cells)
        (set_property (forEach_Data columns i (take j cells) obj) k (cell_text (cells ! j))) k"
    by (simp only: forEach_Data_step assms(2))
  also have "\<dots> = set_property (forEach_Data columns i (take j cells) obj) k (cell_text (cells ! j)) k"
  proof (rule forEach_Data_other)
    fix j' assume "j' < length (drop (Suc j) cells)"
    then have "j < Suc (j + j')" "Suc (j + j') < length cells" by auto
    from assms(4) [OF this] show "column_key columns (Suc (i + j) + j') \<noteq> k"
      by (simp add: add.assoc)
  qed
  also have "\<dots> = Some (cell_text (cells ! j))"
    using assms(3) by (simp add: set_property_def)
  finally show ?thesis .
qed

lemma dom_set_property:
  "dom (set_property obj k v) = dom obj \<union> ({k} - {''__proto__''})"
  by (auto simp: set_property_def)

lemma dom_forEach_Data:
  "dom (forEach_Data columns i cells obj) =
     dom obj \<union> (column_key columns ` {i ..< i + length cells} - {''__proto__''})"
proof (induction cells arbitrary: i obj)
  case Nil
  then show ?case by simp
next
  case (Cons c cells)
  have "{i ..< i + length (c # cells)} = insert i {Suc i ..< Suc i + length cells}"
    by auto
  then show ?case
    by (simp only: forEach_Data_step Cons.IH dom_set_property) auto
qed

lemma forEach_Rows_Suc:
  "forEach_Rows columns (Suc i) rows acc =
     acc @ map (\<lambda>item. forEach_Data columns 0 (Data item) Map.empty) rows"
  by (induction rows arbitrary: i acc) simp_all

lemma mapData_Cons:
  "mapData (header # others) =
     Inr (map (\<lambda>item. forEach_Data (map VarCharValue (Data header)) 0 (Data item) Map.empty) others)"
  by (simp add: mapData_def forEach_Rows_Suc)

lemma column_key_header:
  "i < length cells \<Longrightarrow> column_key (map VarCharValue cells) i = ToString (VarCharValue (cells ! i))"
  by (simp add: column_key_def js_index_def)

lemma column_key_beyond:
  "length columns \<le> i \<Longrightarrow> column_key columns i = ''undefined''"
  by (simp add: column_key_def js_index_def)

section \<open>The claims about the row mapper\<close>

text \<open>
  \<^bold>\<open>C1\<close> (as amended). For the empty input, with no header row, \<^verbatim>\<open>mapData\<close> returns no
  value: it fails with the \<open>TypeError\<close> that reading \<^verbatim>\<open>Data\<close> of the missing first row
  throws. The code has no error of its own for an empty result set.
\<close>

theorem C1_empty_input_TypeError:
  "mapData [] = Inl TypeError \<and> raises_named ''TypeError'' (mapData [])"
  by (simp add: mapData_def raises_named_def)

text \<open>
  \<^bold>\<open>C1\<close>, as stated, fails: on the empty input the error raised is not one named
  \<^verbatim>\<open>EmptyResultSet\<close>.
\<close>

theorem C1_counterexample: "\<not> raises_named ''EmptyResultSet'' (mapData [])"
  by (simp add: mapData_def raises_named_def)

text \<open>
  \<^bold>\<open>C2\<close> (as amended). For a data row strictly shorter than the header row, the mapped
  object has a field exactly for the header names at the positions the row has a cell
  for (a name \<^verbatim>\<open>__proto__\<close> never becomes a field). A trailing column the row has no
  cell for gets no field, unless an earlier column has the same name.
\<close>

theorem C2_short_row_fields:
  assumes "n < length others"
    and "length (Data (others ! n)) < length (Data header)"
  shows "\<exists>mapped. mapData (header # others) = Inr mapped \<and> length mapped = length others
           \<and> dom (mapped ! n)
               = set (map (\<lambda>d. ToString (VarCharValue d))
                        (take (length (Data (others ! n))) (Data header))) - {''__proto__''}"
proof -
  let ?columns = "map VarCharValue (Data header)"
  let ?m = "length (Data (others ! n))"
  have "column_key ?columns ` {0 ..< 0 + ?m}
          = set (map (\<lambda>d. ToString (VarCharValue d)) (take ?m (Data header)))"
  proof -
    have "map (\<lambda>d. ToString (VarCharValue d)) (take ?m (Data header))
            = map (column_key ?columns) [0 ..< ?m]"
      using assms(2) by (intro nth_equalityI) (simp_all add: column_key_header)
    then show ?thesis by simp
  qed
  then have "dom (forEach_Data ?columns 0 (Data (others ! n)) Map.empty)
          = set (map (\<lambda>d. ToString (VarCharValue d)) (take ?m (Data header))) - {''__proto__''}"
    by (simp only: dom_forEach_Data dom_empty Un_empty_left)
  then show ?thesis
    using assms(1) by (simp add: mapData_Cons)
qed

theorem C2_witness:
  "\<exists>mapped. mapData ex_short_row = Inr mapped \<and> length mapped = 1 \<and> dom (mapped ! 0) = {''a''}"
  using C2_short_row_fields [of 0 "[Row [Datum (Some ''1'')]]" "Row [Datum (Some ''a''), Datum (Some ''b'')]"]
  by (auto simp: ex_short_row_def)

text \<open>
  \<^bold>\<open>C2\<close>, as stated, fails: for the header \<^verbatim>\<open>["a","b"]\<close> and the data row \<^verbatim>\<open>["1"]\<close> the
  mapped object is \<^verbatim>\<open>{a:"1"}\<close>, without a field \<^verbatim>\<open>b\<close>, and not \<^verbatim>\<open>{a:"1", b:""}\<close>.
\<close>

theorem C2_counterexample:
  "mapData ex_short_row = Inr [[''a'' \<mapsto> ''1'']]
   \<and> mapData ex_short_row \<noteq> Inr [[''a'' \<mapsto> ''1'', ''b'' \<mapsto> []]]"
proof -
  have "mapData ex_short_row = Inr [[''a'' \<mapsto> ''1'']]"
    by (simp add: ex_short_row_def mapData_def column_key_def js_index_def set_property_def)
  moreover have "[''a'' \<mapsto> ''1''] ''b'' \<noteq> [''a'' \<mapsto> ''1'', ''b'' \<mapsto> []] ''b''"
    by simp
  then have "[''a'' \<mapsto> ''1''] \<noteq> [''a'' \<mapsto> ''1'', ''b'' \<mapsto> []]"
    by metis
  ultimately show ?thesis by simp
qed

text \<open>
  \<^bold>\<open>C6\<close>. For every non-empty input of \<open>k\<close> rows, \<^verbatim>\<open>mapData\<close> returns exactly \<open>k - 1\<close>
  mapped objects, the header row giving none; for an input of only a header row it
  returns the empty sequence and raises nothing.
\<close>

theorem C6_one_record_per_data_row:
  "(rows \<noteq> [] \<longrightarrow> (\<exists>mapped. mapData rows = Inr mapped \<and> length mapped = length rows - 1))
   \<and> mapData [header] = Inr []"
proof (cases rows)
  case Nil
  then show ?thesis by (simp add: mapData_Cons)
next
  case (Cons h others)
  then show ?thesis by (simp add: mapData_Cons)
qed

theorem C6_witness:
  "ex_two_rows \<noteq> [] \<and> (\<exists>mapped. mapData ex_two_rows = Inr mapped \<and> length mapped = 2)
   \<and> mapData ex_header_only = Inr []"
  using C6_one_record_per_data_row [of ex_two_rows "Row [Datum (Some ''a''), Datum (Some ''b'')]"]
  by (auto simp: ex_two_rows_def ex_header_only_def)

text \<open>
  \<^bold>\<open>C7\<close> (as amended). For a cell at position \<open>i\<close> of a data row, when the header name at
  position \<open>i\<close> is not \<^verbatim>\<open>__proto__\<close> and no later cell of the same row is assigned to the
  same name, the mapped object of that row holds, under that name, the cell's value when
  it has one and the empty string when it has none. For the header \<^verbatim>\<open>["a","b"]\<close> and the
  data rows \<^verbatim>\<open>["1","2"]\<close> and \<^verbatim>\<open>["3", absent]\<close> the output is exactly \<^verbatim>\<open>{a:"1", b:"2"}\<close>
  and \<^verbatim>\<open>{a:"3", b:""}\<close>, in that order.
\<close>

theorem C7_cells_paired_with_header_names:
  "(n < length others \<and> i < length (Data (others ! n)) \<and> i < length (Data header)
      \<and> key = ToString (VarCharValue (Data header ! i)) \<and> key \<noteq> ''__proto__''
      \<and> (\<forall>j. i < j \<and> j < length (Data (others ! n))
             \<longrightarrow> column_key (map VarCharValue (Data header)) j \<noteq> key)
    \<longrightarrow> (\<exists>mapped. mapData (header # others) = Inr mapped \<and> length mapped = length others
           \<and> (mapped ! n) key = Some (cell_text (Data (others ! n) ! i))))
   \<and> cell_text (Datum (Some s)) = s \<and> cell_text (Datum None) = []
   \<and> mapData ex_two_rows = Inr [[''a'' \<mapsto> ''1'', ''b'' \<mapsto> ''2''], [''a'' \<mapsto> ''3'', ''b'' \<mapsto> []]]"
proof (intro conjI impI)
  assume h: "n < length others \<and> i < length (Data (others ! n)) \<and> i < length (Data header)
      \<and> key = ToString (VarCharValue (Data header ! i)) \<and> key \<noteq> ''__proto__''
      \<and> (\<forall>j. i < j \<and> j < length (Data (others ! n))
             \<longrightarrow> column_key (map VarCharValue (Data header)) j \<noteq> key)"
  let ?columns = "map VarCharValue (Data header)"
  have key: "column_key ?columns i = key"
    using h by (simp add: column_key_header)
  have later: "column_key ?columns j' \<noteq> key" if "i < j'" "j' < length (Data (others ! n))" for j'
    using h that by blast
  have "forEach_Data ?columns 0 (Data (others ! n)) Map.empty key
          = Some (cell_text (Data (others ! n) ! i))"
  proof (rule forEach_Data_last_write)
    show "i < length (Data (others ! n))" using h by blast
    show "column_key ?columns (0 + i) = key" using key by simp
    show "key \<noteq> ''__proto__''" using h by blast
    show "column_key ?columns (0 + j') \<noteq> key" if "i < j'" "j' < length (Data (others ! n))" for j'
      using later [OF that] by simp
  qed
  then show "\<exists>mapped. mapData (header # others) = Inr mapped \<and> length mapped = length others
           \<and> (mapped ! n) key = Some (cell_text (Data (others ! n) ! i))"
    using h by (simp add: mapData_Cons)
next
  show "cell_text (Datum (Some s)) = s" by (simp add: cell_text_def)
  show "cell_text (Datum None) = []" by (simp add: cell_text_def)
  show "mapData ex_two_rows = Inr [[''a'' \<mapsto> ''1'', ''b'' \<mapsto> ''2''], [''a'' \<mapsto> ''3'', ''b'' \<mapsto> []]]"
    by (simp add: ex_two_rows_def mapData_def column_key_def js_index_def set_property_def)
qed

theorem C7_witness:
  "\<exists>mapped. mapData ex_two_rows = Inr mapped \<and> length mapped = 2 \<and> (mapped ! 1) ''a'' = Some ''3''"
  using C7_cells_paired_with_header_names
    [where n = 1 and i = 0 and key = "''a''"
       and header = "Row [Datum (Some ''a''), Datum (Some ''b'')]"
       and others = "[Row [Datum (Some ''1''), Datum (Some ''2'')], Row [Datum (Some ''3''), Datum None]]"]
  by (auto simp: ex_two_rows_def cell_text_def column_key_def js_index_def)

text \<open>
  \<^bold>\<open>C7\<close>, as stated, fails: for the header \<^verbatim>\<open>["__proto__","b"]\<close> and the data row
  \<^verbatim>\<open>["1","2"]\<close> the mapped object is \<^verbatim>\<open>{b:"2"}\<close>; the first cell is not held under its
  header name.
\<close>

theorem C7_counterexample:
  "mapData ex_proto_header = Inr [[''b'' \<mapsto> ''2'']]
   \<and> mapData ex_proto_header \<noteq> Inr [[''__proto__'' \<mapsto> ''1'', ''b'' \<mapsto> ''2'']]"
proof -
  have "mapData ex_proto_header = Inr [[''b'' \<mapsto> ''2'']]"
    by (simp add: ex_proto_header_def mapData_def column_key_def js_index_def set_property_def)
  moreover have "[''b'' \<mapsto> ''2''] ''__proto__'' \<noteq> [''__proto__'' \<mapsto> ''1'', ''b'' \<mapsto> ''2''] ''__proto__''"
    by simp
  then have "[''b'' \<mapsto> ''2''] \<noteq> [''__proto__'' \<mapsto> ''1'', ''b'' \<mapsto> ''2'']"
    by metis
  ultimately show ?thesis by simp
qed

text \<open>
  \<^bold>\<open>C10\<close>. For a data row strictly longer than the header row, every cell at a position
  past the header's length is stored under the one field name \<^verbatim>\<open>"undefined"\<close>: right
  after the cell at such a position \<open>j\<close> is handled, that field holds the cell's text,
  and in the finished object it holds the text of the row's last cell (the empty string
  if that cell has no value).
\<close>

theorem C10_extra_cells_under_undefined:
  assumes "n < length others"
    and "length (Data header) < length (Data (others ! n))"
  shows "\<exists>mapped. mapData (header # others) = Inr mapped \<and> length mapped = length others
           \<and> (mapped ! n) ''undefined'' = Some (cell_text (last (Data (others ! n))))
           \<and> (\<forall>j. length (Data header) \<le> j \<and> j < length (Data (others ! n)) \<longrightarrow>
                 column_key (map VarCharValue (Data header)) j = ''undefined''
                 \<and> forEach_Data (map VarCharValue (Data header)) 0
                      (take (Suc j) (Data (others ! n))) Map.empty ''undefined''
                    = Some (cell_text (Data (others ! n) ! j)))"
proof -
  let ?columns = "map VarCharValue (Data header)"
  let ?cells = "Data (others ! n)"
  have stored: "forEach_Data ?columns 0 (take (Suc j) ?cells) Map.empty ''undefined''
                  = Some (cell_text (?cells ! j))"
    if "length (Data header) \<le> j" "j < length ?cells" for j
  proof -
    have "forEach_Data ?columns 0 (take (Suc j) ?cells) Map.empty ''undefined''
            = Some (cell_text (take (Suc j) ?cells ! j))"
      using that by (intro forEach_Data_last_write) (simp_all add: column_key_beyond)
    then show ?thesis by simp
  qed
  have nonempty: "?cells \<noteq> []" using assms(2) by auto
  have "forEach_Data ?columns 0 ?cells Map.empty ''undefined''
          = Some (cell_text (?cells ! (length ?cells - 1)))"
    using stored [of "length ?cells - 1"] assms(2) by simp
  then have final: "forEach_Data ?columns 0 ?cells Map.empty ''undefined''
          = Some (cell_text (last ?cells))"
    using nonempty by (simp add: last_conv_nth)
  show ?thesis
    using assms(1) final stored by (simp add: mapData_Cons column_key_beyond)
qed

theorem C10_witness:
  "\<exists>mapped. mapData ex_long_row = Inr mapped \<and> (mapped ! 0) ''undefined'' = Some ''3''"
  using C10_extra_cells_under_undefined [of 0 "[Row [Datum (Some ''1''), Datum (Some ''2''), Datum (Some ''3'')]]" "Row [Datum (Some ''a'')]"]
  by (auto simp: ex_long_row_def cell_text_def)

section \<open>Properties of the paginator, the poller and the client\<close>

lemma loop_empty:
  "results s = [] \<Longrightarrow> getQueryResults_loop q t acc s = None"
  by (subst getQueryResults_loop.simps) (simp add: send_GetQueryResults_def)

lemma loop_reject:
  "results s = Inl e # rest \<Longrightarrow>
     getQueryResults_loop q t acc s =
       Some (Inl e, s\<lparr>results := rest,
                       log := log s @ [GetQueryResultsCommand q (if truthy t then t else None)]\<rparr>)"
  by (subst getQueryResults_loop.simps) (simp add: send_GetQueryResults_def)

lemma loop_page:
  "results s = Inr p # rest \<Longrightarrow>
     getQueryResults_loop q t acc s =
       (if truthy (NextToken p)
        then getQueryResults_loop q (NextToken p) (acc @ page_rows p)
               (s\<lparr>results := rest,
                   log := log s @ [GetQueryResultsCommand q (if truthy t then t else None)]\<rparr>)
        else Some (Inr (acc @ page_rows p),
               s\<lparr>results := rest,
                   log := log s @ [GetQueryResultsCommand q (if truthy t then t else None)]\<rparr>))"
  by (subst getQueryResults_loop.simps) (simp add: send_GetQueryResults_def)

lemma loop_pages:
  assumes "results s = map Inr front @ Inr lastp # rest"
    and "\<forall>p \<in> set front. truthy (NextToken p)"
    and "\<not> truthy (NextToken lastp)"
  shows "getQueryResults_loop q t acc s =
           Some (Inr (acc @ concat (map page_rows (front @ [lastp]))),
                 s\<lparr>results := rest,
                     log := log s @ map (GetQueryResultsCommand q)
                                      ((if truthy t then t else None) # map NextToken front)\<rparr>)"
  using assms
proof (induction front arbitrary: t acc s)
  case Nil
  then show ?case by (simp add: loop_page)
next
  case (Cons p front)
  let ?s = "s\<lparr>results := map Inr front @ Inr lastp # rest,
                log := log s @ [GetQueryResultsCommand q (if truthy t then t else None)]\<rparr>"
  have step: "getQueryResults_loop q t acc s =
                getQueryResults_loop q (NextToken p) (acc @ page_rows p) ?s"
    using Cons.prems by (simp add: loop_page)
  have "getQueryResults_loop q (NextToken p) (acc @ page_rows p) ?s =
          Some (Inr ((acc @ page_rows p) @ concat (map page_rows (front @ [lastp]))),
                ?s\<lparr>results := rest,
                    log := log ?s @ map (GetQueryResultsCommand q)
                             ((if truthy (NextToken p) then NextToken p else None) # map NextToken front)\<rparr>)"
    using Cons.prems by (intro Cons.IH) simp_all
  then show ?case
    using Cons.prems by (simp add: step)
qed

lemma loop_Inr_inv:
  "getQueryResults_loop q t acc s = Some (Inr rows, s') \<Longrightarrow>
     \<exists>front lastp. results s = map Inr front @ Inr lastp # results s'
        \<and> (\<forall>p \<in> set front. truthy (NextToken p)) \<and> \<not> truthy (NextToken lastp)
        \<and> rows = acc @ concat (map page_rows (front @ [lastp]))
        \<and> s' = s\<lparr>results := results s',
                  log := log s @ map (GetQueryResultsCommand q)
                                   ((if truthy t then t else None) # map NextToken front)\<rparr>"
proof (induction rs \<equiv> "results s" arbitrary: t acc s)
  case Nil
  then show ?case by (simp add: loop_empty)
next
  case (Cons r rs)
  from Cons.hyps(2) have rs: "results s = r # rs" by simp
  show ?case
  proof (cases r)
    case (Inl e)
    with Cons.prems rs show ?thesis by (simp add: loop_reject)
  next
    case (Inr p)
    let ?s = "s\<lparr>results := rs,
                  log := log s @ [GetQueryResultsCommand q (if truthy t then t else None)]\<rparr>"
    show ?thesis
    proof (cases "truthy (NextToken p)")
      case False
      with Cons.prems rs Inr have "rows = acc @ page_rows p" "s' = ?s"
        by (simp_all add: loop_page)
      then have "results s = map Inr [] @ Inr p # results s'
          \<and> (\<forall>p \<in> set []. truthy (NextToken p)) \<and> \<not> truthy (NextToken p)
          \<and> rows = acc @ concat (map page_rows ([] @ [p]))
          \<and> s' = s\<lparr>results := results s',
                    log := log s @ map (GetQueryResultsCommand q)
                                   ((if truthy t then t else None) # map NextToken [])\<rparr>"
        using rs Inr False by simp
      then show ?thesis by blast
    next
      case True
      with Cons.prems rs Inr
      have "getQueryResults_loop q (NextToken p) (acc @ page_rows p) ?s = Some (Inr rows, s')"
        by (simp add: loop_page)
      from Cons.hyps(1) [OF _ this] obtain front lastp where
        ih: "results ?s = map Inr front @ Inr lastp # results s'"
          "\<forall>p \<in> set front. truthy (NextToken p)" "\<not> truthy (NextToken lastp)"
          "rows = (acc @ page_rows p) @ concat (map page_rows (front @ [lastp]))"
          "s' = ?s\<lparr>results := results s',
                    log := log ?s @ map (GetQueryResultsCommand q)
                              ((if truthy (NextToken p) then NextToken p else None) # map NextToken front)\<rparr>"
        by auto
      have "results s = map Inr (p # front) @ Inr lastp # results s'
          \<and> (\<forall>p \<in> set (p # front). truthy (NextToken p)) \<and> \<not> truthy (NextToken lastp)
          \<and> rows = acc @ concat (map page_rows ((p # front) @ [lastp]))
          \<and> s' = s\<lparr>results := results s',
                    log := log s @ map (GetQueryResultsCommand q)
                                   ((if truthy t then t else None) # map NextToken (p # front))\<rparr>"
        using ih rs Inr True by simp
      then show ?thesis by blast
    qed
  qed
qed


lemma loop_frame:
  "getQueryResults_loop q t acc s = Some (r, s') \<Longrightarrow>
     starts s' = starts s \<and> executions s' = executions s
       \<and> (\<exists>tokens. log s' = log s @ map (GetQueryResultsCommand q) tokens)"
proof (induction rs \<equiv> "results s" arbitrary: t acc s)
  case Nil
  then show ?case by (simp add: loop_empty)
next
  case (Cons x rs)
  from Cons.hyps(2) have rs: "results s = x # rs" by simp
  let ?tok = "if truthy t then t else None"
  let ?s = "s\<lparr>results := rs, log := log s @ [GetQueryResultsCommand q ?tok]\<rparr>"
  show ?case
  proof (cases x)
    case (Inl e)
    with Cons.prems rs have "s' = ?s" by (simp add: loop_reject)
    then have "starts s' = starts s \<and> executions s' = executions s
        \<and> log s' = log s @ map (GetQueryResultsCommand q) [?tok]"
      by simp
    then show ?thesis by blast
  next
    case (Inr p)
    show ?thesis
    proof (cases "truthy (NextToken p)")
      case False
      with Cons.prems rs Inr have "s' = ?s" by (simp add: loop_page)
      then have "starts s' = starts s \<and> executions s' = executions s
          \<and> log s' = log s @ map (GetQueryResultsCommand q) [?tok]"
        by simp
      then show ?thesis by blast
    next
      case True
      with Cons.prems rs Inr
      have "getQueryResults_loop q (NextToken p) (acc @ page_rows p) ?s = Some (r, s')"
        by (simp add: loop_page)
      from Cons.hyps(1) [OF _ this] obtain tokens where
        "starts s' = starts ?s" "executions s' = executions ?s"
        "log s' = log ?s @ map (GetQueryResultsCommand q) tokens"
        by auto
      then have "starts s' = starts s \<and> executions s' = executions s
          \<and> log s' = log s @ map (GetQueryResultsCommand q) (?tok # tokens)"
        by simp
      then show ?thesis by blast
    qed
  qed
qed

lemma getQueryResults_frame:
  assumes "getQueryResults q s = Some (r, s')"
  shows "starts s' = starts s \<and> executions s' = executions s
       \<and> (\<exists>tokens. log s' = log s @ map (GetQueryResultsCommand q) tokens)"
proof -
  from assms obtain r' where "getQueryResults_loop q None [] s = Some (r', s')"
    by (auto simp: getQueryResults_def split: option.splits sum.splits)
  then show ?thesis by (rule loop_frame)
qed

lemma getQueryResults_Inr_inv:
  assumes "getQueryResults q s = Some (Inr records, s')"
  shows "\<exists>front lastp. results s = map Inr front @ Inr lastp # results s'
        \<and> (\<forall>p \<in> set front. truthy (NextToken p)) \<and> \<not> truthy (NextToken lastp)
        \<and> mapData (concat (map page_rows (front @ [lastp]))) = Inr records
        \<and> s' = s\<lparr>results := results s',
                  log := log s @ map (GetQueryResultsCommand q) (None # map NextToken front)\<rparr>"
proof -
  from assms obtain rows where
    "getQueryResults_loop q None [] s = Some (Inr rows, s')" "mapData rows = Inr records"
    by (auto simp: getQueryResults_def split: option.splits sum.splits)
  with loop_Inr_inv [of q None "[]" s rows s'] show ?thesis
    by auto
qed

lemma getQueryResults_pages:
  assumes "results s = map Inr front @ Inr lastp # rest"
    and "\<forall>p \<in> set front. truthy (NextToken p)"
    and "\<not> truthy (NextToken lastp)"
  shows "getQueryResults q s =
           Some (mapData (concat (map page_rows (front @ [lastp]))),
                 s\<lparr>results := rest,
                     log := log s @ map (GetQueryResultsCommand q) (None # map NextToken front)\<rparr>)"
  using loop_pages [OF assms, of q None "[]"] by (simp add: getQueryResults_def)

lemma submissions_append: "submissions (xs @ ys) = submissions xs @ submissions ys"
  by (induction xs rule: submissions.induct) simp_all

lemma status_queries_append: "status_queries (xs @ ys) = status_queries xs @ status_queries ys"
  by (induction xs rule: status_queries.induct) simp_all

lemma timers_append: "timers (xs @ ys) = timers xs @ timers ys"
  by (induction xs rule: timers.induct) simp_all

lemma fetches_append: "fetches (xs @ ys) = fetches xs @ fetches ys"
  by (induction xs rule: fetches.induct) simp_all

lemma parts_of_fetch_events:
  "submissions (map (GetQueryResultsCommand q) tokens) = []"
  "status_queries (map (GetQueryResultsCommand q) tokens) = []"
  "timers (map (GetQueryResultsCommand q) tokens) = []"
  "fetches (map (GetQueryResultsCommand q) tokens) = map (Pair q) tokens"
  by (induction tokens) simp_all

lemma poll_events_Suc:
  "poll_events q (Suc n) = GetQueryExecutionCommand q # setTimeout 1000 # poll_events q n"
  by (simp add: poll_events_def)

lemma parts_of_poll_events:
  "submissions (poll_events q n) = []"
  "status_queries (poll_events q n) = replicate (Suc n) q"
  "timers (poll_events q n) = replicate n 1000"
  "fetches (poll_events q n) = []"
  by (induction n) (simp_all add: poll_events_Suc, simp_all add: poll_events_def)

lemma check_empty:
  "executions s = [] \<Longrightarrow> checkQueryExequtionStateAndGetData q s = None"
  by (subst checkQueryExequtionStateAndGetData.simps) (simp add: send_GetQueryExecution_def)

lemma check_reject:
  "executions s = Inl e # rest \<Longrightarrow>
     checkQueryExequtionStateAndGetData q s =
       Some (Inl e, s\<lparr>executions := rest, log := log s @ [GetQueryExecutionCommand q]\<rparr>)"
  by (subst checkQueryExequtionStateAndGetData.simps) (simp add: send_GetQueryExecution_def)

lemma check_response:
  "executions s = Inr response # rest \<Longrightarrow>
     checkQueryExequtionStateAndGetData q s =
      (if State response = QUEUED \<or> State response = RUNNING
       then checkQueryExequtionStateAndGetData q
              (s\<lparr>executions := rest,
                  log := log s @ [GetQueryExecutionCommand q, setTimeout 1000]\<rparr>)
       else if State response = SUCCEEDED
       then getQueryResults q (s\<lparr>executions := rest, log := log s @ [GetQueryExecutionCommand q]\<rparr>)
       else if State response = FAILED
       then Some (Inl (Error (''Query failed: '' @ ToString (StateChangeReason response))),
                  s\<lparr>executions := rest, log := log s @ [GetQueryExecutionCommand q]\<rparr>)
       else Some (Inl (Error ''Query was cancelled''),
                  s\<lparr>executions := rest, log := log s @ [GetQueryExecutionCommand q]\<rparr>))"
  by (subst checkQueryExequtionStateAndGetData.simps)
     (simp add: send_GetQueryExecution_def timeout_def)

lemma check_waiting:
  assumes "executions s = map Inr waiting @ rest"
    and "\<forall>r \<in> set waiting. State r = QUEUED \<or> State r = RUNNING"
  shows "checkQueryExequtionStateAndGetData q s =
           checkQueryExequtionStateAndGetData q
             (s\<lparr>executions := rest,
                 log := log s @ concat (replicate (length waiting)
                                  [GetQueryExecutionCommand q, setTimeout 1000])\<rparr>)"
  using assms
proof (induction waiting arbitrary: s)
  case Nil
  then have "s\<lparr>executions := rest, log := log s @ []\<rparr> = s" by simp
  then show ?case by simp
next
  case (Cons r waiting)
  let ?s = "s\<lparr>executions := map Inr waiting @ rest,
                log := log s @ [GetQueryExecutionCommand q, setTimeout 1000]\<rparr>"
  have "checkQueryExequtionStateAndGetData q s = checkQueryExequtionStateAndGetData q ?s"
    using Cons.prems by (simp add: check_response)
  also have "\<dots> = checkQueryExequtionStateAndGetData q
       (?s\<lparr>executions := rest,
           log := log ?s @ concat (replicate (length waiting)
                                  [GetQueryExecutionCommand q, setTimeout 1000])\<rparr>)"
    using Cons.prems by (intro Cons.IH) simp_all
  finally show ?case by simp
qed

lemma check_terminal:
  assumes "executions s = map Inr waiting @ Inr final # rest"
    and "\<forall>r \<in> set waiting. State r = QUEUED \<or> State r = RUNNING"
    and "State final \<noteq> QUEUED" and "State final \<noteq> RUNNING"
  shows "checkQueryExequtionStateAndGetData q s =
      (if State final = SUCCEEDED
       then getQueryResults q (s\<lparr>executions := rest, log := log s @ poll_events q (length waiting)\<rparr>)
       else if State final = FAILED
       then Some (Inl (Error (''Query failed: '' @ ToString (StateChangeReason final))),
                  s\<lparr>executions := rest, log := log s @ poll_events q (length waiting)\<rparr>)
       else Some (Inl (Error ''Query was cancelled''),
                  s\<lparr>executions := rest, log := log s @ poll_events q (length waiting)\<rparr>))"
proof -
  let ?s = "s\<lparr>executions := Inr final # rest,
                log := log s @ concat (replicate (length waiting)
                                 [GetQueryExecutionCommand q, setTimeout 1000])\<rparr>"
  have "checkQueryExequtionStateAndGetData q s = checkQueryExequtionStateAndGetData q ?s"
    using assms(1,2) by (rule check_waiting)
  moreover have "executions ?s = Inr final # rest" by simp
  ultimately show ?thesis
    using assms(3,4) by (simp add: check_response poll_events_def)
qed

lemma check_frame:
  "checkQueryExequtionStateAndGetData q s = Some (r, s') \<Longrightarrow>
     starts s' = starts s \<and> submissions (log s') = submissions (log s)"
proof (induction es \<equiv> "executions s" arbitrary: s)
  case Nil
  then show ?case by (simp add: check_empty)
next
  case (Cons x es)
  from Cons.hyps(2) have es: "executions s = x # es" by simp
  show ?case
  proof (cases x)
    case (Inl e)
    with Cons.prems es show ?thesis
      by (auto simp: check_reject submissions_append)
  next
    case (Inr response)
    let ?w = "s\<lparr>executions := es, log := log s @ [GetQueryExecutionCommand q, setTimeout 1000]\<rparr>"
    let ?t = "s\<lparr>executions := es, log := log s @ [GetQueryExecutionCommand q]\<rparr>"
    consider (waiting) "State response = QUEUED \<or> State response = RUNNING"
      | (succeeded) "State response = SUCCEEDED"
      | (failed) "State response = FAILED" | (cancelled) "State response = CANCELLED"
      by (cases "State response") auto
    then show ?thesis
    proof cases
      case waiting
      with Cons.prems es Inr have "checkQueryExequtionStateAndGetData q ?w = Some (r, s')"
        by (simp add: check_response)
      from Cons.hyps(1) [OF _ this] show ?thesis
        by (simp add: submissions_append)
    next
      case succeeded
      with Cons.prems es Inr have "getQueryResults q ?t = Some (r, s')"
        by (simp add: check_response)
      from getQueryResults_frame [OF this] show ?thesis
        by (auto simp: submissions_append parts_of_fetch_events)
    next
      case failed
      with Cons.prems es Inr show ?thesis
        by (auto simp: check_response submissions_append)
    next
      case cancelled
      with Cons.prems es Inr show ?thesis
        by (auto simp: check_response submissions_append)
    qed
  qed
qed

lemma check_Inr_inv:
  "checkQueryExequtionStateAndGetData q s = Some (Inr records, s') \<Longrightarrow>
     \<exists>polled. results polled = results s \<and> fetches (log polled) = fetches (log s)
        \<and> getQueryResults q polled = Some (Inr records, s')"
proof (induction es \<equiv> "executions s" arbitrary: s)
  case Nil
  then show ?case by (simp add: check_empty)
next
  case (Cons x es)
  from Cons.hyps(2) have es: "executions s = x # es" by simp
  show ?case
  proof (cases x)
    case (Inl e)
    with Cons.prems es show ?thesis
      by (simp add: check_reject)
  next
    case (Inr response)
    let ?w = "s\<lparr>executions := es, log := log s @ [GetQueryExecutionCommand q, setTimeout 1000]\<rparr>"
    let ?t = "s\<lparr>executions := es, log := log s @ [GetQueryExecutionCommand q]\<rparr>"
    consider (waiting) "State response = QUEUED \<or> State response = RUNNING"
      | (succeeded) "State response = SUCCEEDED"
      | (failed) "State response = FAILED" | (cancelled) "State response = CANCELLED"
      by (cases "State response") auto
    then show ?thesis
    proof cases
      case waiting
      with Cons.prems es Inr have "checkQueryExequtionStateAndGetData q ?w = Some (Inr records, s')"
        by (simp add: check_response)
      from Cons.hyps(1) [OF _ this] show ?thesis
        by (simp add: fetches_append)
    next
      case succeeded
      with Cons.prems es Inr have "getQueryResults q ?t = Some (Inr records, s')"
        by (simp add: check_response)
      moreover have "results ?t = results s \<and> fetches (log ?t) = fetches (log s)"
        by (simp add: fetches_append)
      ultimately show ?thesis by blast
    next
      case failed
      with Cons.prems es Inr show ?thesis
        by (simp add: check_response)
    next
      case cancelled
      with Cons.prems es Inr show ?thesis
        by (simp add: check_response)
    qed
  qed
qed

lemma query_started:
  "starts s = Inr started # later \<Longrightarrow>
     query this sqlQuery s =
       checkQueryExequtionStateAndGetData (StartedQueryExecutionId started)
         (s\<lparr>starts := later,
             log := log s @ [StartQueryExecutionCommand (queryExecutionInput this sqlQuery)]\<rparr>)"
  by (simp add: query_def send_StartQueryExecution_def)

lemma query_Some_cases:
  assumes "query this sqlQuery s = Some (r, s')"
  obtains (rejected) e later where "starts s = Inl e # later" "r = Inl e"
      "s' = s\<lparr>starts := later,
               log := log s @ [StartQueryExecutionCommand (queryExecutionInput this sqlQuery)]\<rparr>"
    | (started) started later where "starts s = Inr started # later"
      "checkQueryExequtionStateAndGetData (StartedQueryExecutionId started)
         (s\<lparr>starts := later,
             log := log s @ [StartQueryExecutionCommand (queryExecutionInput this sqlQuery)]\<rparr>)
        = Some (r, s')"
  using assms
  by (auto simp: query_def send_StartQueryExecution_def split: list.splits sum.splits)

lemma ex_failed_query:
  "query this sqlQuery ex_failed =
     Some (Inl (Error ''Query failed: syntax error''),
           \<lparr> starts = [], executions = [], results = [],
             log = [StartQueryExecutionCommand (queryExecutionInput this sqlQuery),
                    GetQueryExecutionCommand (Some ''q1'')] \<rparr>)"
  by (simp add: ex_failed_def query_started [where later = "[]"] check_response [where rest = "[]"])

lemma ex_succeeding_query:
  "query ex_client ''SELECT 1'' ex_succeeding = Some (Inr ex_records, ex_done)"
proof -
  let ?s1 = "\<lparr> starts = [], executions = [],
             results = [Inr ex_page1, Inr ex_page2],
             log = [StartQueryExecutionCommand (queryExecutionInput ex_client ''SELECT 1''),
                    GetQueryExecutionCommand (Some ''q1''), setTimeout 1000,
                    GetQueryExecutionCommand (Some ''q1''), setTimeout 1000,
                    GetQueryExecutionCommand (Some ''q1'')] \<rparr>"
  have "query ex_client ''SELECT 1'' ex_succeeding = getQueryResults (Some ''q1'') ?s1"
    by (simp add: ex_succeeding_def query_started [where later = "[]"]
          check_terminal [where waiting = "[\<lparr> State = QUEUED, StateChangeReason = None \<rparr>,
                     \<lparr> State = RUNNING, StateChangeReason = None \<rparr>]"
             and final = "\<lparr> State = SUCCEEDED, StateChangeReason = None \<rparr>" and rest = "[]"]
          poll_events_def)
  also have "\<dots> = Some (mapData (concat (map page_rows ([ex_page1] @ [ex_page2]))),
       ?s1\<lparr>results := [], log := log ?s1 @ map (GetQueryResultsCommand (Some ''q1'')) (None # map NextToken [ex_page1])\<rparr>)"
    by (rule getQueryResults_pages) (simp_all add: ex_page1_def ex_page2_def)
  also have "mapData (concat (map page_rows ([ex_page1] @ [ex_page2]))) = Inr ex_records"
    by (simp add: ex_page1_def ex_page2_def ex_records_def page_rows_def mapData_def
          column_key_def js_index_def set_property_def)
  finally show ?thesis by (simp add: ex_page1_def ex_done_def)
qed

section \<open>The claims about the paginator, the poller and the client\<close>

text \<open>
  \<^bold>\<open>C3\<close> (as amended). Whenever the polled execution reaches the terminal state
  \<open>FAILED\<close> with a reason string \<open>r\<close>, \<^verbatim>\<open>query\<close> fails with a generic \<open>Error\<close> whose
  message is \<^verbatim>\<open>"Query failed: "\<close> followed by \<open>r\<close> (followed by \<^verbatim>\<open>"undefined"\<close> when the
  service gives no reason); whenever it reaches \<open>CANCELLED\<close>, \<^verbatim>\<open>query\<close> fails with a
  generic \<open>Error\<close> whose message is \<^verbatim>\<open>"Query was cancelled"\<close>.
\<close>

theorem C3_failure_messages:
  assumes "starts s = Inr started # later"
    and "executions s = map Inr waiting @ Inr final # rest"
    and "\<forall>r \<in> set waiting. State r = QUEUED \<or> State r = RUNNING"
  shows "(State final = FAILED \<and> StateChangeReason final = Some r \<longrightarrow>
            outcome (query this sqlQuery s) = Some (Inl (Error (''Query failed: '' @ r))))
       \<and> (State final = FAILED \<and> StateChangeReason final = None \<longrightarrow>
            outcome (query this sqlQuery s) = Some (Inl (Error ''Query failed: undefined'')))
       \<and> (State final = CANCELLED \<longrightarrow>
            outcome (query this sqlQuery s) = Some (Inl (Error ''Query was cancelled'')))"
proof -
  let ?s = "s\<lparr>starts := later,
               log := log s @ [StartQueryExecutionCommand (queryExecutionInput this sqlQuery)]\<rparr>"
  have q: "query this sqlQuery s =
             checkQueryExequtionStateAndGetData (StartedQueryExecutionId started) ?s"
    using assms(1) by (rule query_started)
  have e: "executions ?s = map Inr waiting @ Inr final # rest"
    using assms(2) by simp
  show ?thesis
    by (auto simp: q outcome_def check_terminal [OF e assms(3)])
qed

theorem C3_witness:
  "outcome (query ex_client ''SELECT 1'' ex_failed) = Some (Inl (Error ''Query failed: syntax error''))
   \<and> outcome (query ex_client ''SELECT 1'' ex_cancelled) = Some (Inl (Error ''Query was cancelled''))"
  using C3_failure_messages [of ex_failed "\<lparr> StartedQueryExecutionId = Some ''q1'' \<rparr>" "[]" "[]"
            "\<lparr> State = FAILED, StateChangeReason = Some ''syntax error'' \<rparr>" "[]" "''syntax error''"
            ex_client "''SELECT 1''"]
        C3_failure_messages [of ex_cancelled "\<lparr> StartedQueryExecutionId = Some ''q1'' \<rparr>" "[]"
            "[\<lparr> State = RUNNING, StateChangeReason = None \<rparr>]"
            "\<lparr> State = CANCELLED, StateChangeReason = None \<rparr>" "[]" "[]"
            ex_client "''SELECT 1''"]
  by (simp add: ex_failed_def ex_cancelled_def)

text \<open>
  \<^bold>\<open>C3\<close>, as stated, fails: when the execution fails with the reason
  \<^verbatim>\<open>"syntax error"\<close>, what the error carries is \<^verbatim>\<open>"Query failed: syntax error"\<close>, not the
  reason alone.
\<close>

theorem C3_counterexample:
  "outcome (query ex_client ''SELECT 1'' ex_failed) = Some (Inl (Error ''Query failed: syntax error''))
   \<and> outcome (query ex_client ''SELECT 1'' ex_failed) \<noteq> Some (Inl (Error ''syntax error''))"
  by (simp add: ex_failed_query outcome_def)

text \<open>
  \<^bold>\<open>C4\<close>. For every finite sequence of non-terminal statuses (\<open>QUEUED\<close> or \<open>RUNNING\<close>)
  followed by a terminal status, the poller sends one status query per status of the
  sequence, the terminal one included, sets a timer of 1000 ms after each non-terminal
  status and before the next query, and then does what the terminal status asks for:
  fetch the results after \<open>SUCCEEDED\<close>, fail after \<open>FAILED\<close> or \<open>CANCELLED\<close>. Whatever
  follows, the whole call consumes exactly these statuses, sends exactly these status
  queries and sets exactly these timers. The delay is the one asked of the timer; the
  time that really passes is not part of the model.
\<close>

theorem C4_one_status_query_per_status:
  assumes "executions s = map Inr waiting @ Inr final # rest"
    and "\<forall>r \<in> set waiting. State r = QUEUED \<or> State r = RUNNING"
    and "State final = SUCCEEDED \<or> State final = FAILED \<or> State final = CANCELLED"
  shows "checkQueryExequtionStateAndGetData q s =
          (if State final = SUCCEEDED
           then getQueryResults q
                  (s\<lparr>executions := rest, log := log s @ poll_events q (length waiting)\<rparr>)
           else if State final = FAILED
           then Some (Inl (Error (''Query failed: '' @ ToString (StateChangeReason final))),
                      s\<lparr>executions := rest, log := log s @ poll_events q (length waiting)\<rparr>)
           else Some (Inl (Error ''Query was cancelled''),
                      s\<lparr>executions := rest, log := log s @ poll_events q (length waiting)\<rparr>))
       \<and> (\<forall>r s'. checkQueryExequtionStateAndGetData q s = Some (r, s') \<longrightarrow>
             executions s' = rest
             \<and> status_queries (log s') = status_queries (log s) @ replicate (length waiting + 1) q
             \<and> timers (log s') = timers (log s) @ replicate (length waiting) 1000)"
proof -
  let ?polled = "s\<lparr>executions := rest, log := log s @ poll_events q (length waiting)\<rparr>"
  have terminal: "State final \<noteq> QUEUED" "State final \<noteq> RUNNING"
    using assms(3) by auto
  note eq = check_terminal [OF assms(1,2) terminal, of q]
  have frame: "executions s' = rest
      \<and> status_queries (log s') = status_queries (log s) @ replicate (length waiting + 1) q
      \<and> timers (log s') = timers (log s) @ replicate (length waiting) 1000"
    if run: "checkQueryExequtionStateAndGetData q s = Some (r, s')" for r s'
  proof (cases "State final = SUCCEEDED")
    case True
    with eq run have "getQueryResults q ?polled = Some (r, s')" by simp
    from getQueryResults_frame [OF this] obtain tokens where
      "executions s' = executions ?polled"
      "log s' = log ?polled @ map (GetQueryResultsCommand q) tokens"
      by blast
    then show ?thesis
      by (simp add: status_queries_append timers_append parts_of_fetch_events parts_of_poll_events)
  next
    case False
    with eq run have "s' = ?polled" by (auto split: if_splits)
    then show ?thesis
      by (simp add: status_queries_append timers_append parts_of_poll_events)
  qed
  from eq frame show ?thesis by blast
qed

theorem C4_witness:
  "checkQueryExequtionStateAndGetData (Some ''q1'') ex_cancelled =
     Some (Inl (Error ''Query was cancelled''),
           \<lparr> starts = [Inr \<lparr> StartedQueryExecutionId = Some ''q1'' \<rparr>], executions = [], results = [],
             log = [GetQueryExecutionCommand (Some ''q1''), setTimeout 1000,
                    GetQueryExecutionCommand (Some ''q1'')] \<rparr>)"
  using C4_one_status_query_per_status [of ex_cancelled "[\<lparr> State = RUNNING, StateChangeReason = None \<rparr>]"
            "\<lparr> State = CANCELLED, StateChangeReason = None \<rparr>" "[]" "Some ''q1''"]
  by (simp add: ex_cancelled_def poll_events_def)

text \<open>
  \<^bold>\<open>C5\<close> (as amended). For every finite sequence of \<open>n\<close> result pages in which every page
  but the last carries a non-empty continuation token and the last carries none (or the
  empty string), the paginator sends exactly \<open>n\<close> fetch requests, the first with no
  token, each later one with the token of the response before it, and the rows it has
  accumulated are the rows of the pages, concatenated in request order; these rows are
  what \<^verbatim>\<open>getQueryResults\<close> hands to \<^verbatim>\<open>mapData\<close>.
\<close>

theorem C5_pages_concatenated_in_request_order:
  assumes "results s = map Inr pages @ rest"
    and "pages = front @ [lastp]"
    and "\<forall>p \<in> set front. truthy (NextToken p)"
    and "\<not> truthy (NextToken lastp)"
  shows "getQueryResults_loop q None [] s =
           Some (Inr (concat (map page_rows pages)),
                 s\<lparr>results := rest,
                     log := log s @ map (GetQueryResultsCommand q) (None # map NextToken front)\<rparr>)
       \<and> length (None # map NextToken front) = length pages
       \<and> getQueryResults q s =
           Some (mapData (concat (map page_rows pages)),
                 s\<lparr>results := rest,
                     log := log s @ map (GetQueryResultsCommand q) (None # map NextToken front)\<rparr>)"
proof -
  have r: "results s = map Inr front @ Inr lastp # rest"
    using assms(1,2) by simp
  show ?thesis
    using loop_pages [OF r assms(3,4), of q None "[]"] getQueryResults_pages [OF r assms(3,4), of q]
    by (simp add: assms(2))
qed

theorem C5_witness:
  "getQueryResults_loop (Some ''q1'') None []
       \<lparr> starts = [], executions = [], results = [Inr ex_page1, Inr ex_page2], log = [] \<rparr> =
     Some (Inr [Row [Datum (Some ''a''), Datum (Some ''b'')],
                Row [Datum (Some ''1''), Datum (Some ''2'')],
                Row [Datum (Some ''3''), Datum None]],
           \<lparr> starts = [], executions = [], results = [],
             log = [GetQueryResultsCommand (Some ''q1'') None,
                    GetQueryResultsCommand (Some ''q1'') (Some ''t1'')] \<rparr>)"
  using C5_pages_concatenated_in_request_order
          [of "\<lparr> starts = [], executions = [], results = [Inr ex_page1, Inr ex_page2], log = [] \<rparr>"
              "[ex_page1, ex_page2]" "[]" "[ex_page1]" ex_page2 "Some ''q1''"]
  by (simp add: ex_page1_def ex_page2_def page_rows_def)

text \<open>
  \<^bold>\<open>C5\<close>, as stated, fails: of two pages, the first carrying the empty string as its
  continuation token and the second carrying none, only the first is fetched, with one
  request, and the rows of the second are not in the result.
\<close>

theorem C5_counterexample:
  "outcome (getQueryResults_loop (Some ''q1'') None [] ex_empty_token) = Some (Inr [Row [Datum (Some ''a'')]])
   \<and> events (getQueryResults_loop (Some ''q1'') None [] ex_empty_token)
       = [GetQueryResultsCommand (Some ''q1'') None]
   \<and> outcome (getQueryResults_loop (Some ''q1'') None [] ex_empty_token)
       \<noteq> Some (Inr [Row [Datum (Some ''a'')], Row [Datum (Some ''1'')]])
   \<and> length (events (getQueryResults_loop (Some ''q1'') None [] ex_empty_token)) \<noteq> 2"
  by (simp add: ex_empty_token_def outcome_def events_def page_rows_def
        loop_page [where p = "\<lparr> Rows = Some [Row [Datum (Some ''a'')]], NextToken = Some [] \<rparr>"
                     and rest = "[Inr \<lparr> Rows = Some [Row [Datum (Some ''1'')]], NextToken = None \<rparr>]"])

text \<open>
  \<^bold>\<open>C8\<close> (as amended). Whenever the execution reaches \<open>FAILED\<close> or \<open>CANCELLED\<close>, \<^verbatim>\<open>query\<close>
  raises an error, no result page has been fetched and no fetch request has been sent.
  And whenever \<^verbatim>\<open>query\<close> returns a sequence of mapped objects, the pages fetched are the
  service's pages up to and including the first whose continuation token is absent or
  the empty string, in order, and the sequence is \<^verbatim>\<open>mapData\<close> of all the rows of these
  pages; pages that the service holds after that one are not fetched. Every other
  outcome is an error, which carries no mapped objects.
\<close>

theorem C8_no_fetch_after_failure_result_of_fetched_pages:
  "(starts s = Inr started # later \<and> executions s = map Inr waiting @ Inr final # rest
      \<and> (\<forall>r \<in> set waiting. State r = QUEUED \<or> State r = RUNNING)
      \<and> (State final = FAILED \<or> State final = CANCELLED)
    \<longrightarrow> (\<exists>e s'. query this sqlQuery s = Some (Inl e, s')
           \<and> results s' = results s \<and> fetches (log s') = fetches (log s)))
   \<and> (query this sqlQuery s = Some (Inr records, s')
    \<longrightarrow> (\<exists>started later front lastp.
           starts s = Inr started # later
           \<and> results s = map Inr (front @ [lastp]) @ results s'
           \<and> (\<forall>p \<in> set front. truthy (NextToken p)) \<and> \<not> truthy (NextToken lastp)
           \<and> mapData (concat (map page_rows (front @ [lastp]))) = Inr records
           \<and> fetches (log s') = fetches (log s)
                @ map (Pair (StartedQueryExecutionId started)) (None # map NextToken front)))"
proof (intro conjI impI)
  assume h: "starts s = Inr started # later \<and> executions s = map Inr waiting @ Inr final # rest
      \<and> (\<forall>r \<in> set waiting. State r = QUEUED \<or> State r = RUNNING)
      \<and> (State final = FAILED \<or> State final = CANCELLED)"
  let ?s = "s\<lparr>starts := later,
               log := log s @ [StartQueryExecutionCommand (queryExecutionInput this sqlQuery)]\<rparr>"
  let ?q = "StartedQueryExecutionId started"
  have q: "query this sqlQuery s = checkQueryExequtionStateAndGetData ?q ?s"
    using h by (simp add: query_started)
  have e: "executions ?s = map Inr waiting @ Inr final # rest"
    using h by simp
  have w: "\<forall>r \<in> set waiting. State r = QUEUED \<or> State r = RUNNING"
    using h by blast
  have t: "State final \<noteq> QUEUED" "State final \<noteq> RUNNING" "State final \<noteq> SUCCEEDED"
    using h by auto
  have "query this sqlQuery s =
      Some (Inl (if State final = FAILED
                 then Error (''Query failed: '' @ ToString (StateChangeReason final))
                 else Error ''Query was cancelled''),
            ?s\<lparr>executions := rest, log := log ?s @ poll_events ?q (length waiting)\<rparr>)"
    using t by (simp add: q check_terminal [OF e w t(1,2)])
  moreover have "results (?s\<lparr>executions := rest, log := log ?s @ poll_events ?q (length waiting)\<rparr>)
      = results s" by simp
  moreover have "fetches (log (?s\<lparr>executions := rest, log := log ?s @ poll_events ?q (length waiting)\<rparr>))
      = fetches (log s)"
    by (simp add: fetches_append parts_of_poll_events)
  ultimately show "\<exists>e s'. query this sqlQuery s = Some (Inl e, s')
           \<and> results s' = results s \<and> fetches (log s') = fetches (log s)"
    by blast
next
  assume run: "query this sqlQuery s = Some (Inr records, s')"
  from run show "\<exists>started later front lastp.
           starts s = Inr started # later
           \<and> results s = map Inr (front @ [lastp]) @ results s'
           \<and> (\<forall>p \<in> set front. truthy (NextToken p)) \<and> \<not> truthy (NextToken lastp)
           \<and> mapData (concat (map page_rows (front @ [lastp]))) = Inr records
           \<and> fetches (log s') = fetches (log s)
                @ map (Pair (StartedQueryExecutionId started)) (None # map NextToken front)"
  proof (cases rule: query_Some_cases)
    case (rejected e later)
    then show ?thesis by simp
  next
    case (started started later)
    let ?s = "s\<lparr>starts := later,
               log := log s @ [StartQueryExecutionCommand (queryExecutionInput this sqlQuery)]\<rparr>"
    let ?q = "StartedQueryExecutionId started"
    from check_Inr_inv [OF started(2)] obtain polled where
      p: "results polled = results ?s" "fetches (log polled) = fetches (log ?s)"
         "getQueryResults ?q polled = Some (Inr records, s')"
      by blast
    from getQueryResults_Inr_inv [OF p(3)] obtain front lastp where
      f: "results polled = map Inr front @ Inr lastp # results s'"
         "\<forall>p \<in> set front. truthy (NextToken p)" "\<not> truthy (NextToken lastp)"
         "mapData (concat (map page_rows (front @ [lastp]))) = Inr records"
         "s' = polled\<lparr>results := results s',
                  log := log polled @ map (GetQueryResultsCommand ?q) (None # map NextToken front)\<rparr>"
      by blast
    have "log s' = log polled @ map (GetQueryResultsCommand ?q) (None # map NextToken front)"
      by (subst f(5)) simp
    then have "fetches (log s') = fetches (log s) @ map (Pair ?q) (None # map NextToken front)"
      using p(2) by (simp only: fetches_append parts_of_fetch_events) (simp add: fetches_append)
    moreover have "results s = map Inr (front @ [lastp]) @ results s'"
      using f(1) p(1) by simp
    ultimately show ?thesis
      using started(1) f(2,3,4) by blast
  qed
qed

theorem C8_witness:
  "(\<exists>e s'. query ex_client ''SELECT 1'' ex_failed = Some (Inl e, s')
        \<and> results s' = results ex_failed \<and> fetches (log s') = fetches (log ex_failed))
   \<and> (\<exists>started later front lastp.
           starts ex_succeeding = Inr started # later
           \<and> results ex_succeeding = map Inr (front @ [lastp]) @ results ex_done
           \<and> (\<forall>p \<in> set front. truthy (NextToken p)) \<and> \<not> truthy (NextToken lastp)
           \<and> mapData (concat (map page_rows (front @ [lastp]))) = Inr ex_records
           \<and> fetches (log ex_done) = fetches (log ex_succeeding)
                @ map (Pair (StartedQueryExecutionId started)) (None # map NextToken front))"
proof
  have "starts ex_failed = Inr \<lparr> StartedQueryExecutionId = Some ''q1'' \<rparr> # []
      \<and> executions ex_failed
          = map Inr [] @ Inr \<lparr> State = FAILED, StateChangeReason = Some ''syntax error'' \<rparr> # []
      \<and> (\<forall>r \<in> set []. State r = QUEUED \<or> State r = RUNNING)
      \<and> (State \<lparr> State = FAILED, StateChangeReason = Some ''syntax error'' \<rparr> = FAILED
           \<or> State \<lparr> State = FAILED, StateChangeReason = Some ''syntax error'' \<rparr> = CANCELLED)"
    by (simp add: ex_failed_def)
  with C8_no_fetch_after_failure_result_of_fetched_pages
         [of ex_failed "\<lparr> StartedQueryExecutionId = Some ''q1'' \<rparr>" "[]" "[]"
             "\<lparr> State = FAILED, StateChangeReason = Some ''syntax error'' \<rparr>" "[]"
             ex_client "''SELECT 1''" "[]" ex_failed]
  show "\<exists>e s'. query ex_client ''SELECT 1'' ex_failed = Some (Inl e, s')
        \<and> results s' = results ex_failed \<and> fetches (log s') = fetches (log ex_failed)"
    by blast
next
  have "query ex_client ''SELECT 1'' ex_succeeding = Some (Inr ex_records, ex_done)"
    by (rule ex_succeeding_query)
  with C8_no_fetch_after_failure_result_of_fetched_pages
         [of ex_succeeding "\<lparr> StartedQueryExecutionId = Some ''q1'' \<rparr>" "[]" "[]"
             "\<lparr> State = FAILED, StateChangeReason = Some ''syntax error'' \<rparr>" "[]"
             ex_client "''SELECT 1''" ex_records ex_done]
  show "\<exists>started later front lastp.
           starts ex_succeeding = Inr started # later
           \<and> results ex_succeeding = map Inr (front @ [lastp]) @ results ex_done
           \<and> (\<forall>p \<in> set front. truthy (NextToken p)) \<and> \<not> truthy (NextToken lastp)
           \<and> mapData (concat (map page_rows (front @ [lastp]))) = Inr ex_records
           \<and> fetches (log ex_done) = fetches (log ex_succeeding)
                @ map (Pair (StartedQueryExecutionId started)) (None # map NextToken front)"
    by blast
qed

text \<open>
  \<^bold>\<open>C8\<close>, as stated, fails: after \<open>SUCCEEDED\<close>, with a first page that carries the empty
  string as its continuation token and a second page that carries none, \<^verbatim>\<open>query\<close> sends
  one fetch request and returns the mapped objects of the first page only, without
  raising; the object of the second page's row is missing.
\<close>

theorem C8_counterexample:
  "outcome (query ex_client ''SELECT 1'' ex_succeeded_empty_token) = Some (Inr [[''a'' \<mapsto> ''1'']])
   \<and> outcome (query ex_client ''SELECT 1'' ex_succeeded_empty_token)
       \<noteq> Some (Inr [[''a'' \<mapsto> ''1''], [''a'' \<mapsto> ''2'']])
   \<and> fetches (events (query ex_client ''SELECT 1'' ex_succeeded_empty_token)) = [(Some ''q1'', None)]"
proof -
  let ?p1 = "\<lparr> Rows = Some [Row [Datum (Some ''a'')], Row [Datum (Some ''1'')]],
                NextToken = Some [] \<rparr>"
  let ?p2 = "\<lparr> Rows = Some [Row [Datum (Some ''2'')]], NextToken = None \<rparr>"
  have "query ex_client ''SELECT 1'' ex_succeeded_empty_token =
          Some (Inr [[''a'' \<mapsto> ''1'']],
                \<lparr> starts = [], executions = [], results = [Inr ?p2],
                  log = [StartQueryExecutionCommand (queryExecutionInput ex_client ''SELECT 1''),
                         GetQueryExecutionCommand (Some ''q1''),
                         GetQueryResultsCommand (Some ''q1'') None] \<rparr>)"
    by (simp add: ex_succeeded_empty_token_def query_started [where later = "[]"]
          check_response [where rest = "[]"] getQueryResults_def
          loop_page [where p = ?p1 and rest = "[Inr ?p2]"]
          page_rows_def mapData_def column_key_def js_index_def set_property_def)
  then show ?thesis
    by (simp add: outcome_def events_def)
qed

text \<open>
  \<^bold>\<open>C9\<close> (as amended). A client constructed without a workgroup has the workgroup
  \<^verbatim>\<open>"primary"\<close>, and one constructed without a result-reuse configuration has result
  reuse enabled with a maximal age of 60 minutes. A non-empty workgroup and any
  result-reuse configuration given at construction replace these defaults; the empty
  string as workgroup leaves \<^verbatim>\<open>"primary"\<close>. Every submission built by \<^verbatim>\<open>query\<close> carries
  the query string and exactly the client's database, catalog, workgroup and result-reuse
  configuration, and \<^verbatim>\<open>query\<close> sends exactly one submission.
\<close>

theorem C9_configuration_and_submission:
  "(WorkGroup config = None \<longrightarrow> workGroup (constructor config) = ''primary'')
   \<and> (ResultReuseConfiguration config = None \<longrightarrow>
        resultReuseConfiguration (constructor config)
          = \<lparr> ResultReuseByAgeConfiguration = \<lparr> Enabled = True, MaxAgeInMinutes = Some 60 \<rparr> \<rparr>)
   \<and> (WorkGroup config = Some wg \<and> wg \<noteq> [] \<longrightarrow> workGroup (constructor config) = wg)
   \<and> (WorkGroup config = Some [] \<longrightarrow> workGroup (constructor config) = ''primary'')
   \<and> (ResultReuseConfiguration config = Some reuse \<longrightarrow>
        resultReuseConfiguration (constructor config) = reuse)
   \<and> database (constructor config) = Database config
   \<and> catalog (constructor config) = Catalog config
   \<and> (query this sqlQuery s = Some (r, s') \<longrightarrow>
        submissions (log s') = submissions (log s)
          @ [\<lparr> QueryString = sqlQuery,
                ContextDatabase = database this,
                ContextCatalog = catalog this,
                InputWorkGroup = workGroup this,
                InputResultReuseConfiguration = resultReuseConfiguration this \<rparr>])"
proof -
  have sub: "submissions (log s') = submissions (log s) @ [queryExecutionInput this sqlQuery]"
    if run: "query this sqlQuery s = Some (r, s')"
    using run
  proof (cases rule: query_Some_cases)
    case (rejected e later)
    then show ?thesis by (simp add: submissions_append)
  next
    case (started started later)
    from check_frame [OF started(2)] show ?thesis
      by (simp add: submissions_append)
  qed
  show ?thesis
    using sub by (auto simp: constructor_def queryExecutionInput_def)
qed

theorem C9_witness:
  "workGroup ex_client = ''primary''
   \<and> resultReuseConfiguration ex_client
       = \<lparr> ResultReuseByAgeConfiguration = \<lparr> Enabled = True, MaxAgeInMinutes = Some 60 \<rparr> \<rparr>
   \<and> workGroup (constructor \<lparr> Database = ''sales'', Catalog = ''AwsDataCatalog'',
                   WorkGroup = Some ''reports'',
                   ResultReuseConfiguration =
                     Some \<lparr> ResultReuseByAgeConfiguration = \<lparr> Enabled = False, MaxAgeInMinutes = None \<rparr> \<rparr> \<rparr>)
       = ''reports''
   \<and> resultReuseConfiguration (constructor \<lparr> Database = ''sales'', Catalog = ''AwsDataCatalog'',
                   WorkGroup = Some ''reports'',
                   ResultReuseConfiguration =
                     Some \<lparr> ResultReuseByAgeConfiguration = \<lparr> Enabled = False, MaxAgeInMinutes = None \<rparr> \<rparr> \<rparr>)
       = \<lparr> ResultReuseByAgeConfiguration = \<lparr> Enabled = False, MaxAgeInMinutes = None \<rparr> \<rparr>
   \<and> submissions (events (query ex_client ''SELECT 1'' ex_failed))
       = [\<lparr> QueryString = ''SELECT 1'', ContextDatabase = ''sales'',
            ContextCatalog = ''AwsDataCatalog'', InputWorkGroup = ''primary'',
            InputResultReuseConfiguration =
              \<lparr> ResultReuseByAgeConfiguration = \<lparr> Enabled = True, MaxAgeInMinutes = Some 60 \<rparr> \<rparr> \<rparr>]"
  using C9_configuration_and_submission
          [of "\<lparr> Database = ''sales'', Catalog = ''AwsDataCatalog'',
                   WorkGroup = None, ResultReuseConfiguration = None \<rparr>" _ _
              ex_client "''SELECT 1''" ex_failed _
              "\<lparr> starts = [], executions = [], results = [],
             log = [StartQueryExecutionCommand (queryExecutionInput ex_client ''SELECT 1''),
                    GetQueryExecutionCommand (Some ''q1'')] \<rparr>"]
        C9_configuration_and_submission
          [of "\<lparr> Database = ''sales'', Catalog = ''AwsDataCatalog'',
                   WorkGroup = Some ''reports'',
                   ResultReuseConfiguration =
                     Some \<lparr> ResultReuseByAgeConfiguration = \<lparr> Enabled = False, MaxAgeInMinutes = None \<rparr> \<rparr> \<rparr>"
              "''reports''"
              "\<lparr> ResultReuseByAgeConfiguration = \<lparr> Enabled = False, MaxAgeInMinutes = None \<rparr> \<rparr>"]
        ex_failed_query [of ex_client "''SELECT 1''"]
  by (simp add: ex_client_def events_def constructor_def ex_failed_def)

text \<open>
  \<^bold>\<open>C9\<close>, as stated, fails: a client constructed with the empty string as workgroup
  has the workgroup \<^verbatim>\<open>"primary"\<close>, not the one supplied.
\<close>

theorem C9_counterexample:
  "workGroup (constructor \<lparr> Database = ''sales'', Catalog = ''AwsDataCatalog'',
                 WorkGroup = Some [], ResultReuseConfiguration = None \<rparr>) = ''primary''
   \<and> workGroup (constructor \<lparr> Database = ''sales'', Catalog = ''AwsDataCatalog'',
                 WorkGroup = Some [], ResultReuseConfiguration = None \<rparr>) \<noteq> []"
  by (simp add: constructor_def)

end
